theory Spec2Isabelle
  imports Main
begin

section \<open>Values of the symbolic-execution layer\<close>

text \<open>
  The module \<^verbatim>\<open>tig/symbolic_execution.py\<close> drives a symbolic execution engine (angr, with
  claripy expressions and the cle loader). The engine is not part of the program: what it
  computes (states, solver answers, steps, exploration) is a field of a record the
  functions below receive, so each theorem holds for every engine; what the source relies
  on a call to do (store a value, create a fresh symbol, register a breakpoint) is a small
  definition. Exceptions are values: a function that can raise returns \<open>error + 'a\<close> with
  \<open>Inl\<close> for the exception.
\<close>

datatype error =
    KeyError string
  | AttributeError string
  | ValueError string
  | SolverError string
  | EngineError string

text \<open>
  Expressions. \<open>bv\<close> stands for a claripy bit-vector expression, \<open>bool_ast\<close> for a
  claripy boolean expression. The constructors are the expressions the source builds or
  receives: \<open>BVS name bits\<close> is the symbol of that name and width; \<open>Eq r v\<close> is
  \<^verbatim>\<open>reg == min\<close>; \<open>UGE r v\<close> is \<^verbatim>\<open>min <= reg\<close> (the integer on the left makes Python call
  the reflected comparison of the expression on the right); \<open>ULT r v\<close> is
  \<^verbatim>\<open>reg < max\<close>. \<open>BoolV\<close> is a boolean constant and \<open>BoolS\<close> a boolean symbol, for the
  predicates that arrive from the solver.
\<close>

datatype bv = BVV int int | BVS string int

datatype bool_ast =
    BoolV bool
  | BoolS string
  | Eq bv int
  | UGE bv int
  | ULT bv int

text \<open>
  The method \<^verbatim>\<open>is_true()\<close> of a boolean expression belongs to claripy. The functions of
  the source that call it take it as the argument \<open>is_true\<close>. One instance is fixed for
  running examples: \<open>claripy_is_true\<close> holds of the constant true and of a comparison of a
  concrete bit-vector that evaluates to true, and of no expression with a symbol.
\<close>

fun claripy_is_true :: "bool_ast \<Rightarrow> bool" where
  "claripy_is_true (BoolV b) = b"
| "claripy_is_true (Eq (BVV v n) c) = (v = c)"
| "claripy_is_true (UGE (BVV v n) c) = (c \<le> v)"
| "claripy_is_true (ULT (BVV v n) c) = (v < c)"
| "claripy_is_true _ = False"

section \<open>Constraint records\<close>

datatype ConstraintType = Unknown | BranchTrue | BranchFalse | DeadEnd | Unconstrained

text \<open>
  \<^verbatim>\<open>ConstraintType.X.value\<close>: the integers of the enumeration.
\<close>

fun ConstraintType_value :: "ConstraintType \<Rightarrow> int" where
  "ConstraintType_value Unknown = 0"
| "ConstraintType_value BranchTrue = 1"
| "ConstraintType_value BranchFalse = 2"
| "ConstraintType_value DeadEnd = 3"
| "ConstraintType_value Unconstrained = 4"

record Constraint =
  type :: ConstraintType
  constraints :: "bool_ast list"
  next_addr :: "int option"

text \<open>
  The constructor takes one predicate or a list of predicates
  (\<^verbatim>\<open>Union[Bool, List[Bool]]\<close>); the test \<^verbatim>\<open>type(constraints) == claripy.ast.bool.Bool\<close>
  is the case distinction on \<open>constraints_arg\<close>.
\<close>

datatype constraints_arg = Single bool_ast | Many "bool_ast list"

definition Constraint_init ::
  "(bool_ast \<Rightarrow> bool) \<Rightarrow> ConstraintType \<Rightarrow> constraints_arg \<Rightarrow> int option \<Rightarrow> Constraint" where
  "Constraint_init is_true t cs na =
     \<lparr> type = t,
       constraints =
         filter (\<lambda>b. \<not> is_true b) (case cs of Single c \<Rightarrow> [c] | Many l \<Rightarrow> l),
       next_addr = na \<rparr>"

definition add_constraints :: "Constraint \<Rightarrow> bool_ast list \<Rightarrow> Constraint" where
  "add_constraints self l = self \<lparr> constraints := constraints self @ l \<rparr>"

section \<open>Symbolic states and solver queries\<close>

text \<open>
  A symbolic state (\<^verbatim>\<open>angr.SimState\<close>) as the source uses it. Attribute and register
  lookups by name and the solver queries \<^verbatim>\<open>eval\<close>, \<^verbatim>\<open>min\<close> and \<^verbatim>\<open>max\<close> can raise.
  \<open>memory\<close> is the sequence of \<^verbatim>\<open>state.memory.store(addr, value)\<close> calls made on the state,
  oldest first: any memory the engine implements is a fold over it. \<open>inspect\<close> is the
  list of breakpoints registered with \<^verbatim>\<open>state.inspect.b\<close>. \<open>var_counter\<close> is the value of
  the counter with which claripy numbers the symbols it creates, as the state's solver
  sees it.
\<close>

datatype bp_when = BP_BEFORE | BP_AFTER

datatype bp_action = no_action | print_mem_write | print_reg_write

record SimState =
  getattr :: "string \<Rightarrow> error + bv"
  regs :: "string \<Rightarrow> error + bv"
  solver_eval :: "bv \<Rightarrow> error + int"
  solver_min :: "bv \<Rightarrow> error + int"
  solver_max :: "bv \<Rightarrow> error + int"
  solver_constraints :: "bool_ast list"
  memory :: "(int \<times> bv) list"
  inspect :: "(string \<times> bp_when \<times> bp_action) list"
  var_counter :: nat

definition memory_store :: "SimState \<Rightarrow> int \<Rightarrow> bv \<Rightarrow> SimState" where
  "memory_store state addr v = state \<lparr> memory := memory state @ [(addr, v)] \<rparr>"

definition inspect_b :: "SimState \<Rightarrow> string \<Rightarrow> bp_when \<Rightarrow> bp_action \<Rightarrow> SimState" where
  "inspect_b state event w action = state \<lparr> inspect := inspect state @ [(event, w, action)] \<rparr>"

text \<open>
  Python's \<^verbatim>\<open>Any\<close>, as far as \<^verbatim>\<open>solve_opt\<close> needs it: the integer the solver returns,
  and the defaults a caller passes.
\<close>

datatype any = NoneV | IntV int | StrV string

text \<open>
  \<^verbatim>\<open>solve_opt\<close>: the \<^verbatim>\<open>try\<close> block holds the attribute lookup and the solver query; the
  bare \<^verbatim>\<open>except\<close> catches every exception of either.
\<close>

definition solve_opt :: "SimState \<Rightarrow> string \<Rightarrow> any \<Rightarrow> error + any" where
  "solve_opt state to_solve dflt =
     (case (case getattr state to_solve of
              Inl e \<Rightarrow> Inl e
            | Inr x \<Rightarrow> solver_eval state x) of
        Inl e \<Rightarrow> Inr dflt
      | Inr v \<Rightarrow> Inr (IntV v))"

section \<open>Basic blocks and functions\<close>

text \<open>
  Modelled from the spec: \<^verbatim>\<open>BasicBlock\<close> and \<^verbatim>\<open>Function\<close> are imported from
  \<^verbatim>\<open>tig.bininfo\<close>, which is not among the source files. The spec gives a basic block a
  start address and an ordered sequence of instructions, each exposing the register
  identifiers it writes, and a function an entry address, its known return addresses and
  a name; the field names are the ones the source reads.
\<close>

record Instruction =
  regs_written :: "string list"

record BasicBlock =
  start_vaddr :: int
  instructions :: "Instruction list"

record Function =
  entry_point :: int
  return_addrs :: "int list"
  name :: string

section \<open>Register range synthesizer\<close>

text \<open>
  The loop of \<^verbatim>\<open>reg_constraints\<close> over the registers written, in the order given, with
  \<open>out\<close> the list built so far. A raising lookup or query ends the loop with the
  exception: the source has no handler around them. \<^verbatim>\<open>min\<close> is queried before \<^verbatim>\<open>max\<close>.
\<close>

fun reg_constraints_loop :: "SimState \<Rightarrow> string list \<Rightarrow> bool_ast list \<Rightarrow> error + bool_ast list" where
  "reg_constraints_loop state [] out = Inr out"
| "reg_constraints_loop state (reg # rest) out =
     (case regs state reg of
        Inl e \<Rightarrow> Inl e
      | Inr r \<Rightarrow>
         (case solver_min state r of
            Inl e \<Rightarrow> Inl e
          | Inr mn \<Rightarrow>
             (case solver_max state r of
                Inl e \<Rightarrow> Inl e
              | Inr mx \<Rightarrow>
                  reg_constraints_loop state rest
                    (if mn = mx then out @ [Eq r mn]
                     else if mx < 2 ^ 32 then (out @ [UGE r mn]) @ [ULT r mx]
                     else out @ [UGE r mn]))))"

text \<open>
  \<^verbatim>\<open>regs_written\<close> is a Python set, filled block instruction by block instruction; the
  order in which the \<^verbatim>\<open>for\<close> loop then visits it is Python's. \<open>set_order\<close> maps the
  sequence of insertions to that order; the theorems assume of it only that it lists each
  inserted name once.
\<close>

definition reg_constraints ::
  "(bool_ast \<Rightarrow> bool) \<Rightarrow> (string list \<Rightarrow> string list) \<Rightarrow> SimState \<Rightarrow> BasicBlock
     \<Rightarrow> error + bool_ast list" where
  "reg_constraints is_true set_order state bb =
     (let written = set_order (concat (map regs_written (instructions bb)))
      in case reg_constraints_loop state written [] of
           Inl e \<Rightarrow> Inl e
         | Inr out \<Rightarrow> Inr (filter (\<lambda>x. \<not> is_true x) out))"

section \<open>Memory symbolizer\<close>

text \<open>Python's \<^verbatim>\<open>hex\<close>: a sign, \<^verbatim>\<open>0x\<close>, and the lower-case digits, no leading zero.\<close>

definition hex_digit :: "nat \<Rightarrow> char" where
  "hex_digit d = ''0123456789abcdef'' ! d"

fun hex_nat :: "nat \<Rightarrow> string" where
  "hex_nat n = (if n < 16 then [hex_digit n] else hex_nat (n div 16) @ [hex_digit (n mod 16)])"

declare hex_nat.simps [simp del]

definition hex :: "int \<Rightarrow> string" where
  "hex n = (if n < 0 then ''-0x'' @ hex_nat (nat (- n)) else ''0x'' @ hex_nat (nat n))"

text \<open>
  Python's \<^verbatim>\<open>range(start, stop, step)\<close> as the list it iterates: a zero step raises
  \<^verbatim>\<open>ValueError\<close>, a positive step counts up while below \<open>stop\<close>, a negative one counts
  down while above it.
\<close>

function range_up :: "int \<Rightarrow> int \<Rightarrow> int \<Rightarrow> int list" where
  "range_up start stop step =
     (if 0 < step \<and> start < stop then start # range_up (start + step) stop step else [])"
  by pat_completeness auto
termination
  by (relation "measure (\<lambda>(start, stop, step). nat (stop - start))") auto

function range_down :: "int \<Rightarrow> int \<Rightarrow> int \<Rightarrow> int list" where
  "range_down start stop step =
     (if step < 0 \<and> stop < start then start # range_down (start + step) stop step else [])"
  by pat_completeness auto
termination
  by (relation "measure (\<lambda>(start, stop, step). nat (start - stop))") auto

declare range_up.simps [simp del] range_down.simps [simp del]

definition range_py :: "int \<Rightarrow> int \<Rightarrow> int \<Rightarrow> error + int list" where
  "range_py start stop step =
     (if step = 0 then Inl (ValueError ''range() arg 3 must not be zero'')
      else if 0 < step then Inr (range_up start stop step)
      else Inr (range_down start stop step))"

record Section =
  min_addr :: int
  max_addr :: int

text \<open>
  The decimal digits of an integer, as \<^verbatim>\<open>%d\<close> formats it: a minus sign for a negative
  number, no leading zero.
\<close>

definition dec_digit :: "nat \<Rightarrow> char" where
  "dec_digit d = ''0123456789'' ! d"

fun dec_nat :: "nat \<Rightarrow> string" where
  "dec_nat n = (if n < 10 then [dec_digit n] else dec_nat (n div 10) @ [dec_digit (n mod 10)])"

declare dec_nat.simps [simp del]

definition decimal :: "int \<Rightarrow> string" where
  "decimal n = (if n < 0 then ''-'' @ dec_nat (nat (- n)) else dec_nat (nat n))"

text \<open>
  \<^verbatim>\<open>state.solver.BVS(name, size)\<close> creates a fresh symbol: claripy completes the requested
  name with the next value of its counter and with the width, as
  \<^verbatim>\<open>name_counter_size\<close>, and advances the counter. A negative width raises.
\<close>

definition solver_BVS :: "SimState \<Rightarrow> string \<Rightarrow> int \<Rightarrow> error + (bv \<times> SimState)" where
  "solver_BVS state sym_name bits =
     (if bits < 0 then Inl (EngineError ''BVS'')
      else Inr (BVS (sym_name @ ''_'' @ decimal (int (var_counter state)) @ ''_'' @ decimal bits) bits,
                state \<lparr> var_counter := Suc (var_counter state) \<rparr>))"

text \<open>
  One \<^verbatim>\<open>for addr in range(...)\<close> loop of \<^verbatim>\<open>make_static_memory_symbolic\<close>, over the
  addresses of the range; \<open>prefix\<close> is \<^verbatim>\<open>data_\<close> or \<^verbatim>\<open>bss_\<close>. The result is the state after
  the loop, or the exception with the state as the exception leaves it.
\<close>

fun symbolize_loop ::
  "string \<Rightarrow> int \<Rightarrow> SimState \<Rightarrow> int list \<Rightarrow> (error \<times> SimState) + SimState" where
  "symbolize_loop prefix chunk_size state [] = Inr state"
| "symbolize_loop prefix chunk_size state (addr # rest) =
     (let sym_name = prefix @ hex addr
      in case solver_BVS state sym_name (chunk_size * 8) of
           Inl e \<Rightarrow> Inl (e, state)
         | Inr (symbolic_value, state1) \<Rightarrow>
             symbolize_loop prefix chunk_size (memory_store state1 addr symbolic_value) rest)"

section \<open>The project and the engine behind it\<close>

text \<open>
  The recovered control-flow graph, as far as the source reads it:
  \<^verbatim>\<open>cfg.kb.functions.function(name=...)\<close> gives the function found under a name (here its
  address) or \<^verbatim>\<open>None\<close>.
\<close>

record CFG =
  kb_functions_function :: "string \<Rightarrow> int option"

datatype technique = LoopSeer CFG int | StashMonitor bool

record SimulationManager =
  active :: "SimState list"
  found :: "SimState list"
  deadended :: "SimState list"
  unconstrained :: "SimState list"
  pruned :: "SimState list"
  unsat :: "SimState list"
  techniques :: "technique list"

definition use_technique :: "SimulationManager \<Rightarrow> technique \<Rightarrow> SimulationManager" where
  "use_technique sm t = sm \<lparr> techniques := techniques sm @ [t] \<rparr>"

text \<open>
  An \<^verbatim>\<open>angr.Project\<close> with the engine it gives access to, one field for each entry point
  the source calls: the section map of the loaded binary (a dictionary, so a lookup can
  raise \<^verbatim>\<open>KeyError\<close>), \<^verbatim>\<open>p.factory.blank_state(addr=...)\<close>,
  \<^verbatim>\<open>p.factory.simgr(state, save_unconstrained=...)\<close>, \<^verbatim>\<open>p.analyses.CFGFast()\<close>,
  \<^verbatim>\<open>state.solver.add(c)\<close>, \<^verbatim>\<open>sm.step()\<close>, and
  \<^verbatim>\<open>sm.explore(find=..., num_find=...)\<close>, which also yields the lines the registered
  breakpoints and the stash monitor print while it runs. \<^verbatim>\<open>state.solver.add\<close> can raise
  (it is handed Constraint records, not claripy expressions), and so can \<^verbatim>\<open>sm.step()\<close> (a
  breakpoint registered without an action stops the step in a debugger): \<open>Inl\<close> stands for
  every way such a call ends without its value.
\<close>

record Project =
  sections_map :: "string \<Rightarrow> Section option"
  factory_blank_state :: "int \<Rightarrow> SimState"
  factory_simgr :: "SimState \<Rightarrow> bool \<Rightarrow> SimulationManager"
  analyses_CFGFast :: CFG
  solver_add :: "SimState \<Rightarrow> Constraint \<Rightarrow> error + SimState"
  step :: "SimulationManager \<Rightarrow> error + SimulationManager"
  explore :: "SimulationManager \<Rightarrow> int list \<Rightarrow> int \<Rightarrow> SimulationManager \<times> string list"

text \<open>
  \<^verbatim>\<open>make_static_memory_symbolic\<close> mutates the state it is given. The result is the
  returned state, or the exception together with the state as the exception leaves it.
\<close>

definition make_static_memory_symbolic ::
  "Project \<Rightarrow> SimState \<Rightarrow> int \<Rightarrow> (error \<times> SimState) + SimState" where
  "make_static_memory_symbolic project state chunk_size =
     (case sections_map project ''.data'' of
        None \<Rightarrow> Inl (KeyError ''.data'', state)
      | Some data_section \<Rightarrow>
         (case sections_map project ''.bss'' of
            None \<Rightarrow> Inl (KeyError ''.bss'', state)
          | Some bss_section \<Rightarrow>
             (case range_py (min_addr data_section) (max_addr data_section) chunk_size of
                Inl e \<Rightarrow> Inl (e, state)
              | Inr data_addrs \<Rightarrow>
                 (case symbolize_loop ''data_'' chunk_size state data_addrs of
                    Inl raised \<Rightarrow> Inl raised
                  | Inr state1 \<Rightarrow>
                     (case range_py (min_addr bss_section) (max_addr bss_section) chunk_size of
                        Inl e \<Rightarrow> Inl (e, state1)
                      | Inr bss_addrs \<Rightarrow> symbolize_loop ''bss_'' chunk_size state1 bss_addrs)))))"

section \<open>Function executor\<close>

text \<open>
  \<^verbatim>\<open>exec_func\<close> returns the lines it caused to be printed and its result list, or the
  exception it raised. \<^verbatim>\<open>regions\<close> and \<^verbatim>\<open>in_regions\<close> of the source are bound and never
  used (the \<^verbatim>\<open>avoid\<close> argument that would use them is commented out).
\<close>

definition exec_func :: "Project \<Rightarrow> Function \<Rightarrow> error + (string list \<times> bool_ast list list)" where
  "exec_func p func =
     (let state = factory_blank_state p (entry_point func)
      in case make_static_memory_symbolic p state 4 of
           Inl (e, s) \<Rightarrow> Inl e
         | Inr state1 \<Rightarrow>
            (let state2 = inspect_b state1 ''mem_write'' BP_AFTER print_mem_write;
                 state3 = inspect_b state2 ''reg_write'' BP_AFTER print_reg_write;
                 sm = factory_simgr p state3 False;
                 regions = map (\<lambda>ret. (entry_point func, ret)) (return_addrs func);
                 cfg = analyses_CFGFast p;
                 f = kb_functions_function cfg (name func)
             in case f of
                  None \<Rightarrow> Inr ([''Can't find function '' @ name func], [])
                | Some _ \<Rightarrow>
                   (let sm1 = use_technique sm (LoopSeer cfg 5);
                        sm2 = use_technique sm1 (StashMonitor True);
                        (sm3, printed) = explore p sm2 (return_addrs func) 100
                    in Inr (printed, map solver_constraints (found sm3)))))"

section \<open>Block executor\<close>

text \<open>
  The loop \<^verbatim>\<open>for c in input_constraints: state.solver.add(c)\<close>; the first call that raises
  ends it.
\<close>

fun add_input_constraints :: "Project \<Rightarrow> SimState \<Rightarrow> Constraint list \<Rightarrow> error + SimState" where
  "add_input_constraints p state [] = Inr state"
| "add_input_constraints p state (c # rest) =
     (case solver_add p state c of
        Inl e \<Rightarrow> Inl e
      | Inr state1 \<Rightarrow> add_input_constraints p state1 rest)"

text \<open>
  \<^verbatim>\<open>exec_bb\<close> builds the seed state, adds the input constraints, registers two
  breakpoints without an action, and steps the simulation manager once. Everything
  between \<^verbatim>\<open>sm.step()\<close> and \<^verbatim>\<open>return []\<close> is the text of a string literal, which Python
  evaluates to a string and drops. \<open>exec_bb_sm\<close> is the simulation manager as the step
  leaves it, or the exception raised up to there; \<open>exec_bb\<close> is the value returned, or
  that exception.
\<close>

definition exec_bb_sm ::
  "Project \<Rightarrow> BasicBlock \<Rightarrow> Constraint list \<Rightarrow> error + SimulationManager" where
  "exec_bb_sm p bb input_constraints =
     (let state = factory_blank_state p (start_vaddr bb)
      in case add_input_constraints p state input_constraints of
           Inl e \<Rightarrow> Inl e
         | Inr state1 \<Rightarrow>
            (let state2 = inspect_b state1 ''mem_write'' BP_AFTER no_action;
                 state3 = inspect_b state2 ''reg_write'' BP_AFTER no_action;
                 sm = factory_simgr p state3 True
             in step p sm))"

definition exec_bb :: "Project \<Rightarrow> BasicBlock \<Rightarrow> Constraint list \<Rightarrow> error + Constraint list" where
  "exec_bb p bb input_constraints =
     (case exec_bb_sm p bb input_constraints of
        Inl e \<Rightarrow> Inl e
      | Inr sm \<Rightarrow> Inr [])"

section \<open>Concrete inputs\<close>

text \<open>
  Small engines and inputs on which the definitions are run. \<open>example_state\<close> has a
  symbolic register \<^verbatim>\<open>a0\<close> ranging over 1 to 10, a register \<^verbatim>\<open>a1\<close> holding the concrete
  value 7, and a register \<^verbatim>\<open>a2\<close> whose range the solver cannot find; its address
  evaluates to 4096 and its attribute \<^verbatim>\<open>ip_sym\<close> cannot be evaluated.
\<close>

definition example_state :: SimState where
  "example_state =
     \<lparr> getattr = (\<lambda>a. if a = ''addr'' then Inr (BVV 4096 32)
                       else if a = ''ip_sym'' then Inr (BVS ''ip'' 32)
                       else Inl (AttributeError a)),
       regs = (\<lambda>r. if r = ''a0'' then Inr (BVS ''a0'' 32)
                    else if r = ''a1'' then Inr (BVV 7 32)
                    else if r = ''a2'' then Inr (BVS ''a2'' 32)
                    else Inl (AttributeError r)),
       solver_eval = (\<lambda>x. case x of BVV v n \<Rightarrow> Inr v | BVS s n \<Rightarrow> Inl (SolverError ''unsat'')),
       solver_min = (\<lambda>x. case x of BVV v n \<Rightarrow> Inr v
                      | BVS s n \<Rightarrow> if s = ''a0'' then Inr 1 else Inl (SolverError ''unsat'')),
       solver_max = (\<lambda>x. case x of BVV v n \<Rightarrow> Inr v
                      | BVS s n \<Rightarrow> if s = ''a0'' then Inr 10 else Inl (SolverError ''unsat'')),
       solver_constraints = [BoolS ''c0''],
       memory = [],
       inspect = [],
       var_counter = 0 \<rparr>"

definition block_a0 :: BasicBlock where
  "block_a0 = \<lparr> start_vaddr = 4096, instructions = [\<lparr> regs_written = [''a0''] \<rparr>] \<rparr>"

definition block_a1 :: BasicBlock where
  "block_a1 = \<lparr> start_vaddr = 4096, instructions = [\<lparr> regs_written = [''a1''] \<rparr>] \<rparr>"

definition block_a2 :: BasicBlock where
  "block_a2 = \<lparr> start_vaddr = 4096, instructions = [\<lparr> regs_written = [''a2''] \<rparr>] \<rparr>"

definition block_a0_a2 :: BasicBlock where
  "block_a0_a2 =
     \<lparr> start_vaddr = 4096,
       instructions = [\<lparr> regs_written = [''a0''] \<rparr>, \<lparr> regs_written = [''a2'', ''a0''] \<rparr>] \<rparr>"

text \<open>
  \<open>example_project\<close>: a binary with \<^verbatim>\<open>.data\<close> at 4096 to 4104 and \<^verbatim>\<open>.bss\<close> at 8192 to
  8196, a control-flow graph that knows the function \<^verbatim>\<open>main\<close> only, a solver that rejects
  every Constraint record it is handed, a step that leaves two active states (a two-way
  branch), and an exploration that finds one state. \<open>project_without_bss\<close> and
  \<open>project_without_sections\<close> are the same engine over binaries that lack sections,
  \<open>project_empty_bss\<close> over a binary whose \<^verbatim>\<open>.bss\<close> is empty (the loader then reports a
  \<^verbatim>\<open>max_addr\<close> one below \<^verbatim>\<open>min_addr\<close>), and \<open>project_step_raises\<close> is the same binary on
  an engine whose step does not complete.
\<close>

definition example_project :: Project where
  "example_project =
     \<lparr> sections_map = (\<lambda>n. if n = ''.data'' then Some \<lparr> min_addr = 4096, max_addr = 4104 \<rparr>
                            else if n = ''.bss'' then Some \<lparr> min_addr = 8192, max_addr = 8196 \<rparr>
                            else None),
       factory_blank_state = (\<lambda>a. example_state),
       factory_simgr = (\<lambda>s u. \<lparr> active = [s], found = [], deadended = [], unconstrained = [],
                                  pruned = [], unsat = [], techniques = [] \<rparr>),
       analyses_CFGFast =
         \<lparr> kb_functions_function = (\<lambda>n. if n = ''main'' then Some 4096 else None) \<rparr>,
       solver_add = (\<lambda>s c. Inl (AttributeError ''Constraint'')),
       step = (\<lambda>sm. Inr (sm \<lparr> active := [example_state, example_state] \<rparr>)),
       explore = (\<lambda>sm find num_find. (sm \<lparr> active := [], found := [example_state] \<rparr>, [])) \<rparr>"

definition project_without_bss :: Project where
  "project_without_bss =
     example_project \<lparr> sections_map :=
       (\<lambda>n. if n = ''.data'' then Some \<lparr> min_addr = 4096, max_addr = 4104 \<rparr> else None) \<rparr>"

definition project_without_sections :: Project where
  "project_without_sections = example_project \<lparr> sections_map := (\<lambda>n. None) \<rparr>"




definition func_main :: Function where
  "func_main = \<lparr> entry_point = 4096, return_addrs = [4200], name = ''main'' \<rparr>"

definition func_missing :: Function where
  "func_missing = \<lparr> entry_point = 4096, return_addrs = [4200], name = ''helper'' \<rparr>"

section \<open>Properties of constraint records\<close>

lemma Constraint_init_filtered:
  "list_all (\<lambda>b. \<not> is_true b) (constraints (Constraint_init is_true t cs na))"
  by (simp add: Constraint_init_def list_all_iff)

lemma constraints_add_constraints:
  "constraints (add_constraints self l) = constraints self @ l"
  by (simp add: add_constraints_def)

lemma constraints_foldl_add_constraints:
  "constraints (foldl add_constraints self ls) = constraints self @ concat ls"
  by (induction ls arbitrary: self) (simp_all add: constraints_add_constraints)

text \<open>
  C2, as stated, fails: \<^verbatim>\<open>add_constraints\<close> appends its argument as it is. A record built
  from no predicate, to which the list holding the constant true is appended, stores a
  tautology.
\<close>

theorem add_constraints_stores_tautology:
  "constraints (add_constraints (Constraint_init claripy_is_true Unknown (Many []) None)
      [BoolV True]) = [BoolV True] \<and>
   claripy_is_true (BoolV True)"
  by (simp add: add_constraints_def Constraint_init_def)

text \<open>
  C2, amended: a record stores no syntactic tautology after construction, whether it was
  built from one predicate or from a list; \<^verbatim>\<open>add_constraints\<close> appends the given
  predicates unfiltered, so after any sequence of \<^verbatim>\<open>add_constraints\<close> calls the record is
  free of tautologies exactly when every appended list is.
\<close>

theorem Constraint_tautology_free:
  "list_all (\<lambda>b. \<not> is_true b) (constraints (Constraint_init is_true t cs na)) \<and>
   constraints (add_constraints self l) = constraints self @ l \<and>
   list_all (\<lambda>b. \<not> is_true b)
       (constraints (foldl add_constraints (Constraint_init is_true t cs na) ls))
     = list_all (list_all (\<lambda>b. \<not> is_true b)) ls"
proof -
  have init: "list_all (\<lambda>b. \<not> is_true b) (constraints (Constraint_init is_true t cs na))"
    by (rule Constraint_init_filtered)
  have "list_all (\<lambda>b. \<not> is_true b)
          (constraints (foldl add_constraints (Constraint_init is_true t cs na) ls))
        = list_all (\<lambda>b. \<not> is_true b) (concat ls)"
    using init by (simp add: constraints_foldl_add_constraints)
  also have "\<dots> = list_all (list_all (\<lambda>b. \<not> is_true b)) ls"
    by (induction ls) simp_all
  finally show ?thesis
    using init by (simp add: constraints_add_constraints)
qed

section \<open>Properties of solve_opt\<close>

text \<open>
  C7: \<^verbatim>\<open>solve_opt\<close> never raises. When the attribute exists and the solver evaluates it,
  the result is the solver's value; when the lookup or the evaluation raises, whatever the
  exception, the result is the default the caller passed.
\<close>

theorem solve_opt_result:
  "(\<exists>r. solve_opt state to_solve dflt = Inr r) \<and>
   (\<forall>x v. getattr state to_solve = Inr x \<and> solver_eval state x = Inr v
      \<longrightarrow> solve_opt state to_solve dflt = Inr (IntV v)) \<and>
   (\<forall>x e. getattr state to_solve = Inr x \<and> solver_eval state x = Inl e
      \<longrightarrow> solve_opt state to_solve dflt = Inr dflt) \<and>
   (\<forall>e. getattr state to_solve = Inl e \<longrightarrow> solve_opt state to_solve dflt = Inr dflt)"
  by (auto simp: solve_opt_def split: sum.splits)

theorem solve_opt_result_witness:
  "getattr example_state ''addr'' = Inr (BVV 4096 32) \<and>
   solver_eval example_state (BVV 4096 32) = Inr 4096 \<and>
   solve_opt example_state ''addr'' NoneV = Inr (IntV 4096) \<and>
   getattr example_state ''ip_sym'' = Inr (BVS ''ip'' 32) \<and>
   solver_eval example_state (BVS ''ip'' 32) = Inl (SolverError ''unsat'') \<and>
   solve_opt example_state ''ip_sym'' NoneV = Inr NoneV \<and>
   getattr example_state ''nope'' = Inl (AttributeError ''nope'') \<and>
   solve_opt example_state ''nope'' (StrV ''d'') = Inr (StrV ''d'')"
proof -
  have a: "getattr example_state ''addr'' = Inr (BVV 4096 32)"
    and b: "solver_eval example_state (BVV 4096 32) = Inr 4096"
    and c: "getattr example_state ''ip_sym'' = Inr (BVS ''ip'' 32)"
    and d: "solver_eval example_state (BVS ''ip'' 32) = Inl (SolverError ''unsat'')"
    and e: "getattr example_state ''nope'' = Inl (AttributeError ''nope'')"
    by (simp_all add: example_state_def)
  from solve_opt_result [of example_state "''addr''" NoneV] a b
  have 1: "solve_opt example_state ''addr'' NoneV = Inr (IntV 4096)"
    by blast
  from solve_opt_result [of example_state "''ip_sym''" NoneV] c d
  have 2: "solve_opt example_state ''ip_sym'' NoneV = Inr NoneV"
    by blast
  from solve_opt_result [of example_state "''nope''" "StrV ''d''"] e
  have 3: "solve_opt example_state ''nope'' (StrV ''d'') = Inr (StrV ''d'')"
    by blast
  show ?thesis
    using a b c d e 1 2 3 by simp
qed

section \<open>Properties of the block executor\<close>

lemma add_input_constraints_first_failure:
  "solver_add p state c = Inl e \<Longrightarrow> add_input_constraints p state (c # rest) = Inl e"
  by simp





text \<open>
  C1: the code does not do what the claim and the docstring of \<^verbatim>\<open>exec_bb\<close> (a list of
  constraints, annotated with their type) say. On an engine whose step leaves exactly two
  active states, \<^verbatim>\<open>exec_bb\<close> returns the empty list: no record tagged \<open>BranchTrue\<close>, none
  tagged \<open>BranchFalse\<close>.
\<close>

theorem exec_bb_two_active_not_classified:
  "(case exec_bb_sm example_project block_a0 [] of
      Inl e \<Rightarrow> False
    | Inr sm \<Rightarrow> length (active sm) = 2) \<and>
   exec_bb example_project block_a0 [] = Inr []"
  by (simp add: exec_bb_def exec_bb_sm_def example_project_def Let_def)


section \<open>Properties of the memory symbolizer\<close>






lemma data_bss_names_differ: "''data_'' @ x \<noteq> ''bss_'' @ y"
  by simp












lemma symbolize_loop_ok:
  "0 \<le> chunk_size \<Longrightarrow>
   symbolize_loop prefix chunk_size state addrs =
     Inr (state \<lparr> memory := memory state @
            map (\<lambda>(c, a). (a, BVS (prefix @ hex a @ ''_'' @ decimal (int c) @ ''_'' @
                                      decimal (chunk_size * 8)) (chunk_size * 8)))
              (enumerate (var_counter state) addrs),
          var_counter := var_counter state + length addrs \<rparr>)"
proof (induction addrs arbitrary: state)
  case Nil
  then show ?case by simp
next
  case (Cons a addrs)
  then show ?case
    by (simp add: solver_BVS_def memory_store_def)
qed





lemma range_up_set:
  "0 < stp \<Longrightarrow>
   set (range_up start stop stp) = {a. \<exists>k::nat. a = start + int k * stp \<and> a < stop}"
proof (induction start stop stp rule: range_up.induct)
  case (1 start stop stp)
  show ?case
  proof (cases "start < stop")
    case False
    have "\<And>k::nat. \<not> start + int k * stp < stop"
    proof
      fix k :: nat
      assume "start + int k * stp < stop"
      moreover have "0 \<le> int k * stp" using "1.prems" by simp
      ultimately show False using False by linarith
    qed
    with False show ?thesis
      by (subst range_up.simps) auto
  next
    case True
    with "1.prems" have IH: "set (range_up (start + stp) stop stp) =
        {a. \<exists>k::nat. a = start + stp + int k * stp \<and> a < stop}"
      using "1.IH" by simp
    have "{a. \<exists>k::nat. a = start + int k * stp \<and> a < stop} =
          insert start {a. \<exists>k::nat. a = start + stp + int k * stp \<and> a < stop}"
      (is "?L = insert start ?R")
    proof (intro set_eqI iffI)
      fix a assume "a \<in> ?L"
      then obtain k :: nat where k: "a = start + int k * stp" "a < stop" by blast
      show "a \<in> insert start ?R"
      proof (cases k)
        case 0
        with k show ?thesis by simp
      next
        case (Suc j)
        with k have "a = start + stp + int j * stp" by (simp add: algebra_simps)
        with k show ?thesis by blast
      qed
    next
      fix a assume "a \<in> insert start ?R"
      then consider "a = start" | j :: nat where "a = start + stp + int j * stp" "a < stop"
        by blast
      then show "a \<in> ?L"
      proof cases
        case 1
        with True have "a = start + int 0 * stp \<and> a < stop" by simp
        then show ?thesis by blast
      next
        case 2
        then have "a = start + int (Suc j) * stp \<and> a < stop" by (simp add: algebra_simps)
        then show ?thesis by blast
      qed
    qed
    with IH True "1.prems" show ?thesis
      by (subst range_up.simps) simp
  qed
qed


lemma range_down_set:
  "stp < 0 \<Longrightarrow>
   set (range_down start stop stp) = {a. \<exists>k::nat. a = start + int k * stp \<and> stop < a}"
proof (induction start stop stp rule: range_down.induct)
  case (1 start stop stp)
  show ?case
  proof (cases "stop < start")
    case False
    have "\<And>k::nat. \<not> stop < start + int k * stp"
    proof
      fix k :: nat
      assume "stop < start + int k * stp"
      moreover have "int k * stp \<le> 0" using "1.prems" by (simp add: mult_nonneg_nonpos)
      ultimately show False using False by linarith
    qed
    with False show ?thesis
      by (subst range_down.simps) auto
  next
    case True
    with "1.prems" have IH: "set (range_down (start + stp) stop stp) =
        {a. \<exists>k::nat. a = start + stp + int k * stp \<and> stop < a}"
      using "1.IH" by simp
    have "{a. \<exists>k::nat. a = start + int k * stp \<and> stop < a} =
          insert start {a. \<exists>k::nat. a = start + stp + int k * stp \<and> stop < a}"
      (is "?L = insert start ?R")
    proof (intro set_eqI iffI)
      fix a assume "a \<in> ?L"
      then obtain k :: nat where k: "a = start + int k * stp" "stop < a" by blast
      show "a \<in> insert start ?R"
      proof (cases k)
        case 0
        with k show ?thesis by simp
      next
        case (Suc j)
        with k have "a = start + stp + int j * stp" by (simp add: algebra_simps)
        with k show ?thesis by blast
      qed
    next
      fix a assume "a \<in> insert start ?R"
      then consider "a = start" | j :: nat where "a = start + stp + int j * stp" "stop < a"
        by blast
      then show "a \<in> ?L"
      proof cases
        case 1
        with True have "a = start + int 0 * stp \<and> stop < a" by simp
        then show ?thesis by blast
      next
        case 2
        then have "a = start + int (Suc j) * stp \<and> stop < a" by (simp add: algebra_simps)
        then show ?thesis by blast
      qed
    qed
    with IH True "1.prems" show ?thesis
      by (subst range_down.simps) simp
  qed
qed

lemma range_py_nonzero:
  "chunk_size \<noteq> 0 \<Longrightarrow>
   \<exists>addrs. range_py start stop chunk_size = Inr addrs \<and>
     set addrs = {a. \<exists>k::nat. a = start + int k * chunk_size \<and>
                    (if 0 < chunk_size then a < stop else stop < a)}"
  by (cases "0 < chunk_size") (simp_all add: range_py_def range_up_set range_down_set)

lemma make_static_memory_symbolic_positive:
  assumes data: "sections_map project ''.data'' = Some data_section"
    and bss: "sections_map project ''.bss'' = Some bss_section"
    and chunk: "0 < chunk_size"
  shows "\<exists>data_addrs bss_addrs.
     range_py (min_addr data_section) (max_addr data_section) chunk_size = Inr data_addrs \<and>
     range_py (min_addr bss_section) (max_addr bss_section) chunk_size = Inr bss_addrs \<and>
     set data_addrs =
       {a. \<exists>k::nat. a = min_addr data_section + int k * chunk_size \<and> a < max_addr data_section} \<and>
     set bss_addrs =
       {a. \<exists>k::nat. a = min_addr bss_section + int k * chunk_size \<and> a < max_addr bss_section} \<and>
     make_static_memory_symbolic project state chunk_size =
       Inr (state \<lparr> memory := memory state @
              map (\<lambda>(c, a). (a, BVS (''data_'' @ hex a @ ''_'' @ decimal (int c) @ ''_'' @
                                        decimal (chunk_size * 8)) (chunk_size * 8)))
                (enumerate (var_counter state) data_addrs) @
              map (\<lambda>(c, a). (a, BVS (''bss_'' @ hex a @ ''_'' @ decimal (int c) @ ''_'' @
                                        decimal (chunk_size * 8)) (chunk_size * 8)))
                (enumerate (var_counter state + length data_addrs) bss_addrs),
            var_counter := var_counter state + length data_addrs + length bss_addrs \<rparr>)"
proof -
  from chunk have nz: "chunk_size \<noteq> 0" and nn: "0 \<le> chunk_size" by simp_all
  from range_py_nonzero [OF nz, of "min_addr data_section" "max_addr data_section"] chunk
  obtain data_addrs where d:
    "range_py (min_addr data_section) (max_addr data_section) chunk_size = Inr data_addrs"
    "set data_addrs =
       {a. \<exists>k::nat. a = min_addr data_section + int k * chunk_size \<and> a < max_addr data_section}"
    by auto
  from range_py_nonzero [OF nz, of "min_addr bss_section" "max_addr bss_section"] chunk
  obtain bss_addrs where b:
    "range_py (min_addr bss_section) (max_addr bss_section) chunk_size = Inr bss_addrs"
    "set bss_addrs =
       {a. \<exists>k::nat. a = min_addr bss_section + int k * chunk_size \<and> a < max_addr bss_section}"
    by auto
  have "make_static_memory_symbolic project state chunk_size =
       Inr (state \<lparr> memory := memory state @
              map (\<lambda>(c, a). (a, BVS (''data_'' @ hex a @ ''_'' @ decimal (int c) @ ''_'' @
                                        decimal (chunk_size * 8)) (chunk_size * 8)))
                (enumerate (var_counter state) data_addrs) @
              map (\<lambda>(c, a). (a, BVS (''bss_'' @ hex a @ ''_'' @ decimal (int c) @ ''_'' @
                                        decimal (chunk_size * 8)) (chunk_size * 8)))
                (enumerate (var_counter state + length data_addrs) bss_addrs),
            var_counter := var_counter state + length data_addrs + length bss_addrs \<rparr>)"
    using data bss d(1) b(1)
    by (simp add: make_static_memory_symbolic_def symbolize_loop_ok [OF nn])
  with d b show ?thesis by blast
qed



text \<open>
  C10: when the binary lacks \<^verbatim>\<open>.data\<close> or \<^verbatim>\<open>.bss\<close>, \<^verbatim>\<open>make_static_memory_symbolic\<close> raises
  the \<^verbatim>\<open>KeyError\<close> of the section lookup (\<^verbatim>\<open>.data\<close> is looked up first) and leaves the
  state as it was given: no store has happened.
\<close>

theorem make_static_memory_symbolic_missing_section:
  "sections_map project ''.data'' = None \<or> sections_map project ''.bss'' = None \<Longrightarrow>
   make_static_memory_symbolic project state chunk_size =
     Inl (KeyError (if sections_map project ''.data'' = None then ''.data'' else ''.bss''), state)"
  by (auto simp: make_static_memory_symbolic_def split: option.splits)

theorem make_static_memory_symbolic_missing_section_witness:
  "sections_map project_without_bss ''.bss'' = None \<and>
   make_static_memory_symbolic project_without_bss example_state 4 =
     Inl (KeyError ''.bss'', example_state) \<and>
   memory example_state = []"
proof -
  have h: "sections_map project_without_bss ''.bss'' = None"
    by (simp add: project_without_bss_def)
  have d: "sections_map project_without_bss ''.data'' \<noteq> None"
    by (simp add: project_without_bss_def)
  from make_static_memory_symbolic_missing_section [of project_without_bss example_state 4] h d
  have "make_static_memory_symbolic project_without_bss example_state 4 =
          Inl (KeyError ''.bss'', example_state)"
    by simp
  moreover have "memory example_state = []"
    by (simp add: example_state_def)
  ultimately show ?thesis
    using h by simp
qed





section \<open>Properties of the register range synthesizer\<close>

lemma reg_constraints_loop_ok:
  assumes "\<And>r. r \<in> set rs \<Longrightarrow>
             regs state r = Inr (v r) \<and> solver_min state (v r) = Inr (lo r) \<and>
             solver_max state (v r) = Inr (hi r)"
  shows "reg_constraints_loop state rs out =
     Inr (out @ concat (map (\<lambda>r. if lo r = hi r then [Eq (v r) (lo r)]
                                 else if hi r < 2 ^ 32 then [UGE (v r) (lo r), ULT (v r) (hi r)]
                                 else [UGE (v r) (lo r)]) rs))"
  using assms
proof (induction rs arbitrary: out)
  case Nil
  then show ?case by simp
next
  case (Cons r rs)
  have r: "regs state r = Inr (v r)" "solver_min state (v r) = Inr (lo r)"
    "solver_max state (v r) = Inr (hi r)"
    using Cons.prems [of r] by simp_all
  have rest: "\<And>out. reg_constraints_loop state rs out =
     Inr (out @ concat (map (\<lambda>r. if lo r = hi r then [Eq (v r) (lo r)]
                                 else if hi r < 2 ^ 32 then [UGE (v r) (lo r), ULT (v r) (hi r)]
                                 else [UGE (v r) (lo r)]) rs))"
    using Cons.IH Cons.prems by simp
  show ?case
    by (simp add: r rest)
qed

lemma reg_constraints_loop_returns:
  "reg_constraints_loop state rs out = Inr res \<Longrightarrow> r \<in> set rs \<Longrightarrow>
   \<exists>x mn mx. regs state r = Inr x \<and> solver_min state x = Inr mn \<and> solver_max state x = Inr mx"
proof (induction rs arbitrary: out)
  case Nil
  then show ?case by simp
next
  case (Cons a rs)
  from Cons.prems(1) obtain x mn mx out' where
    a: "regs state a = Inr x" "solver_min state x = Inr mn" "solver_max state x = Inr mx"
    and rest: "reg_constraints_loop state rs out' = Inr res"
    by (auto split: sum.splits)
  show ?case
  proof (cases "r = a")
    case True
    with a show ?thesis by blast
  next
    case False
    with Cons.prems(2) have "r \<in> set rs" by simp
    with Cons.IH rest show ?thesis by blast
  qed
qed

lemma reg_constraints_loop_raises_first:
  assumes "\<And>r. r \<in> set pre \<Longrightarrow>
             \<exists>x mn mx. regs state r = Inr x \<and> solver_min state x = Inr mn \<and>
               solver_max state x = Inr mx"
    and "regs state r = Inr x"
    and "solver_min state x = Inl e \<or> (\<exists>mn. solver_min state x = Inr mn \<and> solver_max state x = Inl e)"
  shows "reg_constraints_loop state (pre @ r # post) out = Inl e"
  using assms
proof (induction pre arbitrary: out)
  case Nil
  then show ?case by auto
next
  case (Cons a pre)
  from Cons.prems(1) [of a] obtain y mn mx where
    "regs state a = Inr y" "solver_min state y = Inr mn" "solver_max state y = Inr mx"
    by auto
  moreover have "\<And>out. reg_constraints_loop state (pre @ r # post) out = Inl e"
    using Cons.IH Cons.prems by simp
  ultimately show ?case by simp
qed


lemma distinct_singleton_list:
  assumes "distinct xs" and "set xs = {x}"
  shows "xs = [x]"
proof -
  have "length xs = 1"
    using distinct_card [OF assms(1)] assms(2) by simp
  then obtain y where "xs = [y]"
    by (cases xs) auto
  with assms(2) show ?thesis by simp
qed

text \<open>
  C3, as stated, fails: for a register whose minimum the solver cannot find,
  \<^verbatim>\<open>reg_constraints\<close> raises the solver's exception; no default takes its place.
\<close>

theorem reg_constraints_raises:
  "regs example_state ''a2'' = Inr (BVS ''a2'' 32) \<and>
   solver_min example_state (BVS ''a2'' 32) = Inl (SolverError ''unsat'') \<and>
   reg_constraints claripy_is_true remdups example_state block_a2 = Inl (SolverError ''unsat'')"
  by (simp add: reg_constraints_def example_state_def block_a2_def)

text \<open>
  C3, amended: \<^verbatim>\<open>reg_constraints\<close> has no handler around its solver queries. If \<^verbatim>\<open>min\<close> or
  \<^verbatim>\<open>max\<close> raises for a register written in the block, \<^verbatim>\<open>reg_constraints\<close> raises and returns
  no list; the exception that reaches the caller is that of the first register, in the
  order of the loop, for which a query raises.
\<close>

theorem reg_constraints_propagates:
  "(set (set_order (concat (map regs_written (instructions bb))))
      = set (concat (map regs_written (instructions bb))) \<and>
    r \<in> set (concat (map regs_written (instructions bb))) \<and>
    regs state r = Inr x \<and>
    (solver_min state x = Inl e \<or> solver_max state x = Inl e)
    \<longrightarrow> (\<exists>e'. reg_constraints is_true set_order state bb = Inl e')) \<and>
   (set_order (concat (map regs_written (instructions bb))) = pre @ r # post \<and>
    (\<forall>q \<in> set pre. \<exists>y mn mx. regs state q = Inr y \<and> solver_min state y = Inr mn \<and>
        solver_max state y = Inr mx) \<and>
    regs state r = Inr x \<and>
    (solver_min state x = Inl e \<or>
       (\<exists>mn. solver_min state x = Inr mn \<and> solver_max state x = Inl e))
    \<longrightarrow> reg_constraints is_true set_order state bb = Inl e)"
proof (intro conjI impI)
  assume h: "set (set_order (concat (map regs_written (instructions bb))))
      = set (concat (map regs_written (instructions bb))) \<and>
    r \<in> set (concat (map regs_written (instructions bb))) \<and>
    regs state r = Inr x \<and>
    (solver_min state x = Inl e \<or> solver_max state x = Inl e)"
  show "\<exists>e'. reg_constraints is_true set_order state bb = Inl e'"
  proof (cases "reg_constraints_loop state (set_order (concat (map regs_written (instructions bb)))) []")
    case (Inl e')
    then show ?thesis by (simp add: reg_constraints_def)
  next
    case (Inr res)
    from h have "r \<in> set (set_order (concat (map regs_written (instructions bb))))" by simp
    from reg_constraints_loop_returns [OF Inr this] h
    show ?thesis by auto
  qed
next
  assume h: "set_order (concat (map regs_written (instructions bb))) = pre @ r # post \<and>
    (\<forall>q \<in> set pre. \<exists>y mn mx. regs state q = Inr y \<and> solver_min state y = Inr mn \<and>
        solver_max state y = Inr mx) \<and>
    regs state r = Inr x \<and>
    (solver_min state x = Inl e \<or>
       (\<exists>mn. solver_min state x = Inr mn \<and> solver_max state x = Inl e))"
  then have "reg_constraints_loop state (pre @ r # post) [] = Inl e"
    by (intro reg_constraints_loop_raises_first) auto
  with h show "reg_constraints is_true set_order state bb = Inl e"
    by (simp add: reg_constraints_def)
qed

theorem reg_constraints_propagates_witness:
  "remdups (concat (map regs_written (instructions block_a0_a2))) = [''a2'', ''a0''] \<and>
   regs example_state ''a2'' = Inr (BVS ''a2'' 32) \<and>
   solver_min example_state (BVS ''a2'' 32) = Inl (SolverError ''unsat'') \<and>
   (\<exists>e'. reg_constraints claripy_is_true remdups example_state block_a0_a2 = Inl e') \<and>
   reg_constraints claripy_is_true remdups example_state block_a0_a2 = Inl (SolverError ''unsat'')"
proof -
  have o: "remdups (concat (map regs_written (instructions block_a0_a2))) = [''a2'', ''a0'']"
    by (simp add: block_a0_a2_def)
  have w: "concat (map regs_written (instructions block_a0_a2)) = [''a0'', ''a2'', ''a0'']"
    by (simp add: block_a0_a2_def)
  have r: "regs example_state ''a2'' = Inr (BVS ''a2'' 32)"
    and m: "solver_min example_state (BVS ''a2'' 32) = Inl (SolverError ''unsat'')"
    by (simp_all add: example_state_def)
  note t = reg_constraints_propagates [of remdups block_a0_a2 "''a2''" example_state
      "BVS ''a2'' 32" "SolverError ''unsat''" claripy_is_true "[]" "[''a0'']"]
  from t r m w have 1: "\<exists>e'. reg_constraints claripy_is_true remdups example_state block_a0_a2 = Inl e'"
    by simp
  from t r m o have 2: "reg_constraints claripy_is_true remdups example_state block_a0_a2
      = Inl (SolverError ''unsat'')"
    by simp
  from o r m 1 2 show ?thesis by simp
qed

text \<open>
  C4, as stated, fails: register \<^verbatim>\<open>a1\<close> holds the concrete value 7, so its minimum and
  maximum are both 7, and the equality \<^verbatim>\<open>a1 == 7\<close> is a syntactic tautology; the filter at
  the end of \<^verbatim>\<open>reg_constraints\<close> removes it, and the output is empty.
\<close>

theorem reg_constraints_drops_tautology:
  "regs example_state ''a1'' = Inr (BVV 7 32) \<and>
   solver_min example_state (BVV 7 32) = Inr 7 \<and>
   solver_max example_state (BVV 7 32) = Inr 7 \<and>
   claripy_is_true (Eq (BVV 7 32) 7) \<and>
   reg_constraints claripy_is_true remdups example_state block_a1 = Inr []"
  by (simp add: reg_constraints_def example_state_def block_a1_def)

text \<open>
  C4, amended: when the register lookups and the solver queries succeed,
  \<^verbatim>\<open>reg_constraints\<close> returns, for the registers written anywhere in the block, each taken
  once, in the order of the loop: the equality \<^verbatim>\<open>register == minimum\<close> if minimum and
  maximum are equal; otherwise the lower bound \<^verbatim>\<open>minimum <= register\<close>, followed by the upper
  bound \<^verbatim>\<open>register < maximum\<close> only when the maximum is below \<open>2\<^sup>3\<^sup>2\<close>; and each of these
  predicates is left out of the returned list when it is a syntactic tautology.
\<close>

theorem reg_constraints_ranges:
  assumes "distinct (set_order (concat (map regs_written (instructions bb))))"
    and "set (set_order (concat (map regs_written (instructions bb))))
         = set (concat (map regs_written (instructions bb)))"
    and "\<forall>r \<in> set (concat (map regs_written (instructions bb))).
           regs state r = Inr (v r) \<and> solver_min state (v r) = Inr (lo r) \<and>
           solver_max state (v r) = Inr (hi r)"
  shows "\<exists>written. distinct written \<and>
     set written = (\<Union>i \<in> set (instructions bb). set (regs_written i)) \<and>
     reg_constraints is_true set_order state bb =
       Inr (filter (\<lambda>x. \<not> is_true x)
              (concat (map (\<lambda>r. if lo r = hi r then [Eq (v r) (lo r)]
                                 else if hi r < 2 ^ 32 then [UGE (v r) (lo r), ULT (v r) (hi r)]
                                 else [UGE (v r) (lo r)]) written)))"
proof -
  let ?written = "set_order (concat (map regs_written (instructions bb)))"
  have "reg_constraints_loop state ?written [] =
     Inr ([] @ concat (map (\<lambda>r. if lo r = hi r then [Eq (v r) (lo r)]
                                 else if hi r < 2 ^ 32 then [UGE (v r) (lo r), ULT (v r) (hi r)]
                                 else [UGE (v r) (lo r)]) ?written))"
  proof (rule reg_constraints_loop_ok)
    fix r
    assume "r \<in> set ?written"
    with assms(2) have "r \<in> set (concat (map regs_written (instructions bb)))"
      by (simp only:)
    with assms(3) show "regs state r = Inr (v r) \<and> solver_min state (v r) = Inr (lo r) \<and>
        solver_max state (v r) = Inr (hi r)"
      by blast
  qed
  then have "reg_constraints is_true set_order state bb =
       Inr (filter (\<lambda>x. \<not> is_true x)
              (concat (map (\<lambda>r. if lo r = hi r then [Eq (v r) (lo r)]
                                 else if hi r < 2 ^ 32 then [UGE (v r) (lo r), ULT (v r) (hi r)]
                                 else [UGE (v r) (lo r)]) ?written)))"
    by (simp add: reg_constraints_def)
  moreover have "set ?written = (\<Union>i \<in> set (instructions bb). set (regs_written i))"
    using assms(2) by simp
  ultimately show ?thesis
    using assms(1) by blast
qed

theorem reg_constraints_ranges_witness:
  "regs example_state ''a0'' = Inr (BVS ''a0'' 32) \<and>
   solver_min example_state (BVS ''a0'' 32) = Inr 1 \<and>
   solver_max example_state (BVS ''a0'' 32) = Inr 10 \<and>
   reg_constraints claripy_is_true remdups example_state block_a0 =
     Inr [UGE (BVS ''a0'' 32) 1, ULT (BVS ''a0'' 32) 10]"
proof -
  have w: "concat (map regs_written (instructions block_a0)) = [''a0'']"
    by (simp add: block_a0_def)
  have r: "regs example_state ''a0'' = Inr (BVS ''a0'' 32)"
    "solver_min example_state (BVS ''a0'' 32) = Inr 1"
    "solver_max example_state (BVS ''a0'' 32) = Inr 10"
    by (simp_all add: example_state_def)
  have "\<exists>written. distinct written \<and>
     set written = (\<Union>i \<in> set (instructions block_a0). set (regs_written i)) \<and>
     reg_constraints claripy_is_true remdups example_state block_a0 =
       Inr (filter (\<lambda>x. \<not> claripy_is_true x)
              (concat (map (\<lambda>r. if (1::int) = 10 then [Eq (BVS ''a0'' 32) 1]
                                 else if (10::int) < 2 ^ 32
                                   then [UGE (BVS ''a0'' 32) 1, ULT (BVS ''a0'' 32) 10]
                                 else [UGE (BVS ''a0'' 32) 1]) written)))"
    by (rule reg_constraints_ranges
          [of remdups block_a0 example_state "\<lambda>r. BVS ''a0'' 32" "\<lambda>r. 1" "\<lambda>r. 10" claripy_is_true])
       (simp_all add: w r)
  then obtain written where d: "distinct written"
    and s: "set written = (\<Union>i \<in> set (instructions block_a0). set (regs_written i))"
    and e: "reg_constraints claripy_is_true remdups example_state block_a0 =
       Inr (filter (\<lambda>x. \<not> claripy_is_true x)
              (concat (map (\<lambda>r. if (1::int) = 10 then [Eq (BVS ''a0'' 32) 1]
                                 else if (10::int) < 2 ^ 32
                                   then [UGE (BVS ''a0'' 32) 1, ULT (BVS ''a0'' 32) 10]
                                 else [UGE (BVS ''a0'' 32) 1]) written)))"
    by blast
  from s have "set written = {''a0''}"
    by (simp add: block_a0_def)
  with d have "written = [''a0'']"
    by (rule distinct_singleton_list)
  with e r show ?thesis
    by simp
qed

section \<open>Properties of the function executor\<close>

lemma make_static_memory_symbolic_returns:
  assumes "sections_map p ''.data'' = Some d" and "sections_map p ''.bss'' = Some b"
  shows "\<exists>state'. make_static_memory_symbolic p state 4 = Inr state'"
  using make_static_memory_symbolic_positive [OF assms, of 4 state] by auto

text \<open>
  C6, as stated, fails: \<^verbatim>\<open>exec_func\<close> symbolizes the static memory before it looks the
  function up, so on a binary without a \<^verbatim>\<open>.data\<close> section it raises \<^verbatim>\<open>KeyError\<close> although
  the function is absent from the control-flow graph.
\<close>

theorem exec_func_raises_without_sections:
  "kb_functions_function (analyses_CFGFast project_without_sections) (name func_missing) = None \<and>
   exec_func project_without_sections func_missing = Inl (KeyError ''.data'')"
  by (simp add: exec_func_def make_static_memory_symbolic_def project_without_sections_def
      example_project_def func_missing_def)

text \<open>
  C6, amended: for a project whose binary has the \<^verbatim>\<open>.data\<close> and \<^verbatim>\<open>.bss\<close> sections and a
  function whose name is absent from the recovered control-flow graph, \<^verbatim>\<open>exec_func\<close> does
  not raise: it prints the line \<^verbatim>\<open>Can't find function\<close> with the name and returns the
  empty list.
\<close>

theorem exec_func_function_not_found:
  assumes "sections_map p ''.data'' = Some d"
    and "sections_map p ''.bss'' = Some b"
    and "kb_functions_function (analyses_CFGFast p) (name func) = None"
  shows "exec_func p func = Inr ([''Can't find function '' @ name func], [])"
proof -
  from make_static_memory_symbolic_returns [OF assms(1,2)]
  obtain state' where
    "make_static_memory_symbolic p (factory_blank_state p (entry_point func)) 4 = Inr state'"
    by blast
  with assms(3) show ?thesis
    by (simp add: exec_func_def Let_def)
qed

theorem exec_func_function_not_found_witness:
  "kb_functions_function (analyses_CFGFast example_project) (name func_missing) = None \<and>
   exec_func example_project func_missing = Inr ([''Can't find function helper''], [])"
proof -
  have d: "sections_map example_project ''.data'' = Some \<lparr> min_addr = 4096, max_addr = 4104 \<rparr>"
    and b: "sections_map example_project ''.bss'' = Some \<lparr> min_addr = 8192, max_addr = 8196 \<rparr>"
    and f: "kb_functions_function (analyses_CFGFast example_project) (name func_missing) = None"
    by (simp_all add: example_project_def func_missing_def)
  from exec_func_function_not_found [OF d b f] f show ?thesis
    by (simp add: func_missing_def)
qed

text \<open>
  The main path of \<^verbatim>\<open>exec_func\<close>: with both sections present and the function found, the
  exploration is started once, on the simulation manager of the symbolized seed state with
  the techniques \<^verbatim>\<open>LoopSeer(cfg=cfg, bound=5)\<close> and \<^verbatim>\<open>StashMonitor()\<close>, with the function's
  return addresses as targets and \<^verbatim>\<open>num_find=100\<close>; the result lists, for each found state
  in order, its solver constraints. Whether the exploration returns is the engine's
  matter: here \<open>explore\<close> is a total function.
\<close>

lemma exec_func_explores:
  assumes "sections_map p ''.data'' = Some d"
    and "sections_map p ''.bss'' = Some b"
    and "kb_functions_function (analyses_CFGFast p) (name func) = Some f"
  shows "\<exists>seed sm' printed.
     make_static_memory_symbolic p (factory_blank_state p (entry_point func)) 4 = Inr seed \<and>
     explore p
       (use_technique
          (use_technique
             (factory_simgr p
                (inspect_b (inspect_b seed ''mem_write'' BP_AFTER print_mem_write)
                   ''reg_write'' BP_AFTER print_reg_write)
                False)
             (LoopSeer (analyses_CFGFast p) 5))
          (StashMonitor True))
       (return_addrs func) 100 = (sm', printed) \<and>
     exec_func p func = Inr (printed, map solver_constraints (found sm'))"
proof -
  from make_static_memory_symbolic_returns [OF assms(1,2)]
  obtain seed where
    s: "make_static_memory_symbolic p (factory_blank_state p (entry_point func)) 4 = Inr seed"
    by blast
  obtain sm' printed where e: "explore p
       (use_technique
          (use_technique
             (factory_simgr p
                (inspect_b (inspect_b seed ''mem_write'' BP_AFTER print_mem_write)
                   ''reg_write'' BP_AFTER print_reg_write)
                False)
             (LoopSeer (analyses_CFGFast p) 5))
          (StashMonitor True))
       (return_addrs func) 100 = (sm', printed)"
    by (cases "explore p
       (use_technique
          (use_technique
             (factory_simgr p
                (inspect_b (inspect_b seed ''mem_write'' BP_AFTER print_mem_write)
                   ''reg_write'' BP_AFTER print_reg_write)
                False)
             (LoopSeer (analyses_CFGFast p) 5))
          (StashMonitor True))
       (return_addrs func) 100") blast
  from s e assms(3) have "exec_func p func = Inr (printed, map solver_constraints (found sm'))"
    by (simp add: exec_func_def Let_def)
  with s e show ?thesis by blast
qed

text \<open>On the example engine, \<^verbatim>\<open>exec_func\<close> of \<^verbatim>\<open>main\<close> returns the constraints of the one found state.\<close>

lemma exec_func_example:
  "exec_func example_project func_main = Inr ([], [[BoolS ''c0'']])"
proof -
  have d: "sections_map example_project ''.data'' = Some \<lparr> min_addr = 4096, max_addr = 4104 \<rparr>"
    and b: "sections_map example_project ''.bss'' = Some \<lparr> min_addr = 8192, max_addr = 8196 \<rparr>"
    and f: "kb_functions_function (analyses_CFGFast example_project) (name func_main) = Some 4096"
    by (simp_all add: example_project_def func_main_def)
  from exec_func_explores [OF d b f]
  obtain seed sm' printed where
    e: "explore example_project
       (use_technique
          (use_technique
             (factory_simgr example_project
                (inspect_b (inspect_b seed ''mem_write'' BP_AFTER print_mem_write)
                   ''reg_write'' BP_AFTER print_reg_write)
                False)
             (LoopSeer (analyses_CFGFast example_project) 5))
          (StashMonitor True))
       (return_addrs func_main) 100 = (sm', printed)"
    and r: "exec_func example_project func_main = Inr (printed, map solver_constraints (found sm'))"
    by blast
  from e have "printed = []" and "found sm' = [example_state]"
    by (auto simp: example_project_def)
  with r show ?thesis
    by (simp add: example_state_def)
qed

end
